theory Spec2Isabelle
  imports Main
begin

section \<open>Python values used by the spinner\<close>

text \<open>
  The widgets keep their number as the text of an input box and convert with Python's
  \<^verbatim>\<open>str\<close> and \<^verbatim>\<open>int\<close>. Python integers are unbounded, so they are \<^typ>\<open>int\<close>;
  the text is a \<^typ>\<open>string\<close> of ASCII characters.
\<close>

datatype error = ValueError | IllegalMonthError | OverflowError

definition digit_char :: "nat \<Rightarrow> char" where
  "digit_char d = char_of (48 + d)"

fun str_nat :: "nat \<Rightarrow> string" where
  "str_nat n = (if n < 10 then [digit_char n] else str_nat (n div 10) @ [digit_char (n mod 10)])"

declare str_nat.simps [simp del]

text \<open>\<^verbatim>\<open>str(i)\<close> for an integer: decimal digits, a minus sign for negatives.\<close>

definition py_str :: "int \<Rightarrow> string" where
  "py_str i = (if i < 0 then CHR ''-'' # str_nat (nat (- i)) else str_nat (nat i))"

definition is_digit :: "char \<Rightarrow> bool" where
  "is_digit c = (48 \<le> (of_char c :: nat) \<and> (of_char c :: nat) \<le> 57)"

definition digit_val :: "char \<Rightarrow> nat" where
  "digit_val c = of_char c - 48"

definition is_space :: "char \<Rightarrow> bool" where
  "is_space c = ((of_char c :: nat) = 32 \<or> (9 \<le> (of_char c :: nat) \<and> (of_char c :: nat) \<le> 13))"

definition strip :: "string \<Rightarrow> string" where
  "strip s = rev (dropWhile is_space (rev (dropWhile is_space s)))"

text \<open>
  The digits of a literal after its first digit: single underscores are allowed between
  digits, anything else is a \<^verbatim>\<open>ValueError\<close>.
\<close>

fun digits_from :: "nat \<Rightarrow> string \<Rightarrow> error + nat" where
  "digits_from acc [] = Inr acc"
| "digits_from acc (c # cs) =
     (if is_digit c then digits_from (10 * acc + digit_val c) cs
      else if c = CHR ''_'' then
        (case cs of
           [] \<Rightarrow> Inl ValueError
         | d # ds \<Rightarrow> if is_digit d then digits_from (10 * acc + digit_val d) ds
                    else Inl ValueError)
      else Inl ValueError)"

definition unsigned :: "string \<Rightarrow> error + nat" where
  "unsigned s =
     (case s of
        [] \<Rightarrow> Inl ValueError
      | c # cs \<Rightarrow> if is_digit c then digits_from (digit_val c) cs else Inl ValueError)"

text \<open>
  \<^verbatim>\<open>int(s)\<close> for a string: surrounding white space is dropped, one sign is allowed, and
  the rest must be a decimal literal; every other string raises \<^verbatim>\<open>ValueError\<close>.
\<close>

definition py_int :: "string \<Rightarrow> error + int" where
  "py_int s =
     (case strip s of
        [] \<Rightarrow> Inl ValueError
      | c # cs \<Rightarrow>
          if c = CHR ''-'' then
            (case unsigned cs of Inl e \<Rightarrow> Inl e | Inr n \<Rightarrow> Inr (- int n))
          else if c = CHR ''+'' then
            (case unsigned cs of Inl e \<Rightarrow> Inl e | Inr n \<Rightarrow> Inr (int n))
          else
            (case unsigned (c # cs) of Inl e \<Rightarrow> Inl e | Inr n \<Rightarrow> Inr (int n)))"

section \<open>NumberSpinner\<close>

text \<open>
  A spinner has the attributes \<^verbatim>\<open>min\<close>, \<^verbatim>\<open>max\<close> and the text of its input box
  (\<^verbatim>\<open>self.input.value\<close>). The cursor position of the input box is presentation only
  and is left out.
\<close>

record NumberSpinner =
  min_val :: int
  max_val :: int
  input_value :: string

text \<open>The \<^verbatim>\<open>value\<close> property: the text as an integer, \<^verbatim>\<open>min\<close> on \<^verbatim>\<open>ValueError\<close>.\<close>

definition value_get :: "NumberSpinner \<Rightarrow> int" where
  "value_get sp = (case py_int (input_value sp) of Inr n \<Rightarrow> n | Inl e \<Rightarrow> min_val sp)"

definition number_valid :: "NumberSpinner \<Rightarrow> bool" where
  "number_valid sp = (min_val sp \<le> value_get sp \<and> value_get sp \<le> max_val sp)"

definition set_value_no_msg :: "int \<Rightarrow> NumberSpinner \<Rightarrow> NumberSpinner" where
  "set_value_no_msg v sp = sp\<lparr>input_value := py_str v\<rparr>"

text \<open>
  \<^verbatim>\<open>constrain_value\<close>: returns at once on an empty text; otherwise the two tests run one
  after the other, the second on the value the first may have stored.
\<close>

definition constrain_value :: "NumberSpinner \<Rightarrow> NumberSpinner" where
  "constrain_value sp =
     (if input_value sp = [] then sp
      else
        let sp1 = (if value_get sp > max_val sp then set_value_no_msg (max_val sp) sp else sp);
            sp2 = (if value_get sp1 < min_val sp1 then set_value_no_msg (min_val sp1) sp1 else sp1)
        in sp2)"

text \<open>
  \<^verbatim>\<open>NumberSpinner.__init__\<close>: the initial value defaults to \<^verbatim>\<open>min\<close>; a value that is
  not valid is replaced by \<^verbatim>\<open>min\<close>.
\<close>

definition NumberSpinner_init :: "int \<Rightarrow> int \<Rightarrow> int option \<Rightarrow> NumberSpinner" where
  "NumberSpinner_init mn mx initial_value =
     (let v = (case initial_value of Some i \<Rightarrow> i | None \<Rightarrow> mn);
          sp = \<lparr>min_val = mn, max_val = mx, input_value = py_str v\<rparr>
      in if \<not> number_valid sp then sp\<lparr>input_value := py_str mn\<rparr> else sp)"

section \<open>Calendar and dates of the standard library\<close>

text \<open>
  \<^verbatim>\<open>calendar.isleap\<close>, the table \<^verbatim>\<open>calendar.mdays\<close> and the day count that
  \<^verbatim>\<open>calendar.monthrange(year, month)[1]\<close> returns. \<^verbatim>\<open>monthrange\<close> raises
  \<^verbatim>\<open>IllegalMonthError\<close> (a subclass of \<^verbatim>\<open>ValueError\<close>) for a month outside 1..12 and
  accepts every year.
\<close>

definition isleap :: "int \<Rightarrow> bool" where
  "isleap y = (y mod 4 = 0 \<and> (y mod 100 \<noteq> 0 \<or> y mod 400 = 0))"

definition mdays :: "int list" where
  "mdays = [0, 31, 28, 31, 30, 31, 30, 31, 31, 30, 31, 30, 31]"

definition ndays :: "int \<Rightarrow> int \<Rightarrow> int" where
  "ndays y m = mdays ! nat m + (if m = 2 \<and> isleap y then 1 else 0)"

definition monthrange_ndays :: "int \<Rightarrow> int \<Rightarrow> error + int" where
  "monthrange_ndays y m =
     (if \<not> (1 \<le> m \<and> m \<le> 12) then Inl IllegalMonthError else Inr (ndays y m))"

text \<open>
  \<^verbatim>\<open>datetime.date(year, month, day)\<close>. CPython converts the three arguments to C
  \<^verbatim>\<open>int\<close> first and raises \<^verbatim>\<open>OverflowError\<close> when one does not fit in 32 bits; then it
  raises \<^verbatim>\<open>ValueError\<close> unless the year is in 1..9999, the month in 1..12 and the day in
  1..number of days of that month.
\<close>

datatype date = Date (date_year: int) (date_month: int) (date_day: int)

definition fits_c_int :: "int \<Rightarrow> bool" where
  "fits_c_int i = (- 2147483648 \<le> i \<and> i \<le> 2147483647)"

definition date_new :: "int \<Rightarrow> int \<Rightarrow> int \<Rightarrow> error + date" where
  "date_new y m d =
     (if \<not> (fits_c_int y \<and> fits_c_int m \<and> fits_c_int d) then Inl OverflowError
      else if \<not> (1 \<le> y \<and> y \<le> 9999) then Inl ValueError
      else if \<not> (1 \<le> m \<and> m \<le> 12) then Inl ValueError
      else if \<not> (1 \<le> d \<and> d \<le> ndays y m) then Inl ValueError
      else Inr (Date y m d))"

text \<open>What \<^verbatim>\<open>except ValueError\<close> catches.\<close>

definition is_ValueError :: "error \<Rightarrow> bool" where
  "is_ValueError e = (e = ValueError \<or> e = IllegalMonthError)"

section \<open>BasicDatePicker\<close>

text \<open>
  The picker owns three spinners, told apart by their class \<^verbatim>\<open>day\<close>, \<^verbatim>\<open>month\<close> or
  \<^verbatim>\<open>year\<close>.
\<close>

record BasicDatePicker =
  day :: NumberSpinner
  month :: NumberSpinner
  year :: NumberSpinner

datatype role = Day | Month | Year

datatype direction = Up | Down

record ButtonSpin =
  number_spinner :: role
  direction :: direction
  transient_number :: int

datatype DateTuple = DateTuple (tuple_year: int) (tuple_month: int) (tuple_day: int)

definition spinner_of :: "role \<Rightarrow> BasicDatePicker \<Rightarrow> NumberSpinner" where
  "spinner_of r p = (case r of Day \<Rightarrow> day p | Month \<Rightarrow> month p | Year \<Rightarrow> year p)"

definition put_spinner :: "role \<Rightarrow> NumberSpinner \<Rightarrow> BasicDatePicker \<Rightarrow> BasicDatePicker" where
  "put_spinner r sp p =
     (case r of Day \<Rightarrow> p\<lparr>day := sp\<rparr> | Month \<Rightarrow> p\<lparr>month := sp\<rparr> | Year \<Rightarrow> p\<lparr>year := sp\<rparr>)"

text \<open>Running one step after another; an exception of the first step ends the handler.\<close>

definition seq :: "error + 'a \<Rightarrow> ('a \<Rightarrow> error + 'b) \<Rightarrow> error + 'b" where
  "seq m f = (case m of Inl e \<Rightarrow> Inl e | Inr x \<Rightarrow> f x)"

subsection \<open>Posted messages\<close>

text \<open>
  The spinners post two kinds of message: \<^verbatim>\<open>NumberChanged\<close>, with the spinner and its
  number, and \<^verbatim>\<open>ButtonSpin\<close>. \<^verbatim>\<open>post_message\<close> belongs to the widget framework, which
  is not part of the source: it puts the message in a queue and returns, and the handlers
  of the message run after the setter or handler that posted it has finished. (Section 5
  of the specification describes the handlers as running inside the posting call; the
  setter of the source stores and posts, and returns.) The state of the running picker is
  therefore the picker with the messages posted and not yet handled, oldest first.
\<close>

datatype message =
    is_NumberChanged: NumberChanged role int
  | is_ButtonSpin: ButtonSpin_posted ButtonSpin

type_synonym app = "BasicDatePicker \<times> message list"

fun post_message :: "message \<Rightarrow> app \<Rightarrow> app" where
  "post_message m (p, q) = (p, q @ [m])"

text \<open>
  The \<^verbatim>\<open>value\<close> setter of the spinner with class \<open>r\<close>: it stores the text and posts
  \<^verbatim>\<open>NumberChanged\<close> with the value read back.
\<close>

fun value_set :: "role \<Rightarrow> int \<Rightarrow> app \<Rightarrow> app" where
  "value_set r v (p, q) =
     (let p1 = put_spinner r ((spinner_of r p)\<lparr>input_value := py_str v\<rparr>) p
      in post_message (NumberChanged r (value_get (spinner_of r p1))) (p1, q))"

text \<open>
  The property \<^verbatim>\<open>highest_day\<close> assigns to \<^verbatim>\<open>month.value\<close> when the month is above 12,
  so it returns the new state with the day count.
\<close>

definition highest_day :: "app \<Rightarrow> error + (int \<times> app)" where
  "highest_day s =
     (let s1 = (if value_get (month (fst s)) > 12 then value_set Month 12 s else s)
      in case monthrange_ndays (value_get (year (fst s1))) (value_get (month (fst s1))) of
           Inl e \<Rightarrow> Inl e
         | Inr n \<Rightarrow> Inr (n, s1))"

text \<open>
  \<^verbatim>\<open>validate\<close>: \<^verbatim>\<open>self.day.max = self.highest_day\<close>, then \<^verbatim>\<open>self.day.constrain_value()\<close>,
  which stores without posting.
\<close>

definition validate :: "app \<Rightarrow> error + app" where
  "validate s =
     (case highest_day s of
        Inl e \<Rightarrow> Inl e
      | Inr (n, (p, q)) \<Rightarrow> Inr (p\<lparr>day := constrain_value ((day p)\<lparr>max_val := n\<rparr>)\<rparr>, q))"

text \<open>\<^verbatim>\<open>_on_spin\<close>: the rules in the order of the \<^verbatim>\<open>if\<close>/\<^verbatim>\<open>elif\<close> chain.\<close>

definition on_spin :: "ButtonSpin \<Rightarrow> app \<Rightarrow> error + app" where
  "on_spin event s =
     (let r = number_spinner event; t = transient_number event in
      if r = Year then Inr s
      else if r = Month \<and> t > max_val (spinner_of r (fst s))
              \<and> value_get (year (fst s)) \<le> max_val (year (fst s)) then
        (let s = value_set Year (value_get (year (fst s)) + 1) s;
             s = value_set Month (min_val (month (fst s))) s
         in Inr s)
      else
        seq (if r = Day \<and> value_get (month (fst s)) = 12
             then seq (highest_day s) (\<lambda>(h, s). Inr (t = h + 1, s))
             else Inr (False, s)) (\<lambda>(december, s).
        if december then
          (let s = value_set Month 1 s;
               s = value_set Day 1 s;
               s = value_set Year (value_get (year (fst s)) + 1) s
           in Inr s)
        else if r = Month \<and> t < min_val (spinner_of r (fst s))
                \<and> value_get (year (fst s)) \<ge> min_val (year (fst s)) then
          (let s = value_set Year (value_get (year (fst s)) - 1) s;
               s = value_set Month (max_val (month (fst s))) s
           in Inr s)
        else if r = Day \<and> t > max_val (spinner_of r (fst s))
                \<and> value_get (month (fst s)) \<le> max_val (month (fst s)) then
          (let s = value_set Month (value_get (month (fst s)) + 1) s;
               s = value_set Day (min_val (day (fst s))) s
           in Inr s)
        else if r = Day \<and> t = 0 \<and> value_get (month (fst s)) = 1 then
          (if value_get (year (fst s)) \<noteq> min_val (year (fst s)) then
             (let s = value_set Month 12 s;
                  s = value_set Year (value_get (year (fst s)) - 1) s;
                  s = value_set Day (max_val (day (fst s))) s
              in Inr s)
           else
             (let s = value_set Month 1 s;
                  s = value_set Day 1 s
              in Inr s))
        else if r = Day \<and> t < min_val (spinner_of r (fst s))
                \<and> value_get (month (fst s)) \<ge> min_val (month (fst s)) then
          (let s = value_set Month (value_get (month (fst s)) - 1) s;
               s = value_set Day (max_val (day (fst s))) s
           in Inr s)
        else Inr s))"

text \<open>
  \<^verbatim>\<open>_up_down_btn\<close> of the spinner with class \<open>r\<close>: the candidate is stored when it is
  within the bound, and is posted in a \<^verbatim>\<open>ButtonSpin\<close> either way.
\<close>

definition up_down_btn_handler :: "role \<Rightarrow> direction \<Rightarrow> app \<Rightarrow> app" where
  "up_down_btn_handler r dir s =
     (case dir of
        Up \<Rightarrow>
          (let current_value = value_get (spinner_of r (fst s)) + 1;
               s = (if current_value \<le> max_val (spinner_of r (fst s))
                    then value_set r current_value s else s)
           in post_message (ButtonSpin_posted
                \<lparr>number_spinner = r, direction = Up, transient_number = current_value\<rparr>) s)
      | Down \<Rightarrow>
          (let current_value = value_get (spinner_of r (fst s)) - 1;
               s = (if current_value \<ge> min_val (spinner_of r (fst s))
                    then value_set r current_value s else s)
           in post_message (ButtonSpin_posted
                \<lparr>number_spinner = r, direction = Down, transient_number = current_value\<rparr>) s))"

text \<open>The \<^verbatim>\<open>date\<close> property: \<^verbatim>\<open>None\<close> when constructing the date raises \<^verbatim>\<open>ValueError\<close>.\<close>

definition date_get :: "BasicDatePicker \<Rightarrow> error + date option" where
  "date_get p =
     (case date_new (value_get (year p)) (value_get (month p)) (value_get (day p)) of
        Inr d \<Rightarrow> Inr (Some d)
      | Inl e \<Rightarrow> if is_ValueError e then Inr None else Inl e)"

text \<open>The setter of \<^verbatim>\<open>date\<close>: three assignments, the day first and the year last.\<close>

definition date_set :: "DateTuple \<Rightarrow> app \<Rightarrow> app" where
  "date_set v s =
     (let s = value_set Day (tuple_day v) s;
          s = value_set Month (tuple_month v) s;
          s = value_set Year (tuple_year v) s
      in s)"

text \<open>
  \<^verbatim>\<open>BasicDatePicker.__init__\<close>; \<open>today\<close> stands for \<^verbatim>\<open>date.today()\<close>. The label, the id
  and the disabled flag are presentation only.
\<close>

definition BasicDatePicker_init :: "int \<Rightarrow> date option \<Rightarrow> date \<Rightarrow> BasicDatePicker" where
  "BasicDatePicker_init min_year initial_value today =
     (let init_day = (case initial_value of Some d \<Rightarrow> date_day d | None \<Rightarrow> date_day today);
          init_month = (case initial_value of Some d \<Rightarrow> date_month d | None \<Rightarrow> date_month today);
          init_year = (case initial_value of Some d \<Rightarrow> date_year d | None \<Rightarrow> date_year today)
      in \<lparr>day = NumberSpinner_init 1 31 (Some init_day),
          month = NumberSpinner_init 1 12 (Some init_month),
          year = NumberSpinner_init min_year (date_year today + 1) (Some init_year)\<rparr>)"

subsection \<open>Delivery\<close>

text \<open>
  The handlers of the picker by message: \<^verbatim>\<open>validate\<close> is registered for
  \<^verbatim>\<open>NumberChanged\<close> with the selector \<^verbatim>\<open>.month,.year\<close>, \<^verbatim>\<open>_on_spin\<close> for
  \<^verbatim>\<open>ButtonSpin\<close>. The handler \<^verbatim>\<open>_on_change\<close> only forwards a message to the picker's
  own listeners and changes no state. The change event of the input box itself, with the
  handler that strips the characters typed (\<^verbatim>\<open>_typed_anything\<close>), and the handler of a
  lost focus (\<^verbatim>\<open>_leave_input\<close>) belong to text entry and are outside the model.
\<close>

fun dispatch :: "message \<Rightarrow> app \<Rightarrow> error + app" where
  "dispatch (NumberChanged r n) s = (if r = Month \<or> r = Year then validate s else Inr s)"
| "dispatch (ButtonSpin_posted event) s = on_spin event s"

text \<open>
  The framework's loop: the oldest message is taken and handled, the handler running to
  its end, until no message is left; an exception in a handler ends the run.
\<close>

function deliver :: "app \<Rightarrow> error + BasicDatePicker" where
  "deliver (p, []) = Inr p"
| "deliver (p, m # q) = (case dispatch m (p, q) of Inl e \<Rightarrow> Inl e | Inr s \<Rightarrow> deliver s)"
  by pat_completeness auto

termination
proof -
  let ?spins = "\<lambda>q. length (filter is_ButtonSpin q)"
  let ?over = "\<lambda>p. if value_get (month p) > 12 then 2 else (0::nat)"
  have twelve: "py_int (py_str 12) = Inr 12"
    by code_simp
  have set_spins: "?spins (snd (value_set r v s)) = ?spins (snd s)" for r v s
    by (cases s) (simp add: Let_def)
  have high_spins: "?spins q' = ?spins (snd s)" if "highest_day s = Inr (h, p', q')" for s h p' q'
    using that set_spins [of Month 12 s]
    by (auto simp: highest_day_def Let_def split: if_splits sum.splits)
  have spin_spins: "?spins (snd s') = ?spins (snd s)" if "on_spin event s = Inr s'" for event s s'
    using that
    by (auto simp: on_spin_def Let_def seq_def set_spins simp del: value_set.simps
        split: if_splits sum.splits dest!: high_spins)
  have changed: "?spins q' = ?spins q \<and> ?over p' + length q' < ?over p + Suc (length q)"
    if "validate (p, q) = Inr (p', q')" for p q p' q'
    using that
    by (auto simp: validate_def highest_day_def Let_def monthrange_ndays_def put_spinner_def
        spinner_of_def value_get_def twelve split: if_splits sum.splits)
  show ?thesis
  proof (relation "measures [\<lambda>(p, q). length (filter is_ButtonSpin q),
      \<lambda>(p, q). (if value_get (month p) > 12 then 2 else 0) + length q]")
    show "wf (measures [\<lambda>(p, q). length (filter is_ButtonSpin q),
      \<lambda>(p, q). (if value_get (month p) > 12 then 2 else 0) + length q])"
      by simp
  next
    fix p m q s
    assume d: "dispatch m (p, q) = Inr s"
    obtain p' q' where s: "s = (p', q')" by (cases s)
    show "(s, p, m # q) \<in> measures [\<lambda>(p, q). length (filter is_ButtonSpin q),
      \<lambda>(p, q). (if value_get (month p) > 12 then 2 else 0) + length q]"
    proof (cases m)
      case (NumberChanged r n)
      show ?thesis
      proof (cases "r = Month \<or> r = Year")
        case True
        with d NumberChanged s have "validate (p, q) = Inr (p', q')" by simp
        from changed [OF this] NumberChanged s show ?thesis by simp
      next
        case False
        with d NumberChanged s show ?thesis by auto
      qed
    next
      case (ButtonSpin_posted event)
      with d s have "on_spin event (p, q) = Inr (p', q')" by simp
      from spin_spins [OF this] ButtonSpin_posted s show ?thesis by simp
    qed
  qed
qed

text \<open>
  An action on a picker with nothing pending, followed by the delivery of all that it
  posts.
\<close>

definition settle :: "(app \<Rightarrow> app) \<Rightarrow> BasicDatePicker \<Rightarrow> error + BasicDatePicker" where
  "settle f p = deliver (f (p, []))"

text \<open>
  A press of a button of the spinner with class \<open>r\<close>: the handler runs, and what it
  posts is delivered.
\<close>

definition up_down_btn :: "role \<Rightarrow> direction \<Rightarrow> BasicDatePicker \<Rightarrow> error + BasicDatePicker" where
  "up_down_btn r dir p = settle (up_down_btn_handler r dir) p"

section \<open>Notions used to state the properties\<close>

text \<open>The year, month and day that the three spinners hold.\<close>

definition fields :: "BasicDatePicker \<Rightarrow> int \<times> int \<times> int" where
  "fields p = (value_get (year p), value_get (month p), value_get (day p))"

text \<open>
  The bounds that \<^verbatim>\<open>BasicDatePicker.__init__\<close> gives the spinners and no handler changes:
  days start at 1 and months range over 1..12. Only \<^verbatim>\<open>day.max\<close> is assigned later.
\<close>

definition spinner_layout :: "BasicDatePicker \<Rightarrow> bool" where
  "spinner_layout p = (min_val (day p) = 1 \<and> min_val (month p) = 1 \<and> max_val (month p) = 12)"

definition within_bounds :: "BasicDatePicker \<Rightarrow> bool" where
  "within_bounds p = (number_valid (day p) \<and> number_valid (month p) \<and> number_valid (year p))"

text \<open>
  A picker built with the default least year 2010 on 1 June 2023, so that its years range
  over 2010..2024, showing the given date.
\<close>

definition picker_at :: "int \<Rightarrow> int \<Rightarrow> int \<Rightarrow> BasicDatePicker" where
  "picker_at y m d = BasicDatePicker_init 2010 (Some (Date y m d)) (Date 2023 6 1)"

text \<open>
  The day count in the words of the specification: 28, 29, 30 or 31 by month, a year being
  a leap year when it is divisible by 4, except centuries not divisible by 400.
\<close>

definition leap_year_rule :: "int \<Rightarrow> bool" where
  "leap_year_rule y = (y mod 4 = 0 \<and> \<not> (y mod 100 = 0 \<and> y mod 400 \<noteq> 0))"

definition days_in_month :: "int \<Rightarrow> int \<Rightarrow> int" where
  "days_in_month y m =
     (if m = 2 then (if leap_year_rule y then 29 else 28)
      else if m = 4 \<or> m = 6 \<or> m = 9 \<or> m = 11 then 30
      else 31)"

section \<open>Reading back what was written\<close>

lemma is_digit_digit_char: "d < 10 \<Longrightarrow> is_digit (digit_char d)"
  by (simp add: is_digit_def digit_char_def)

lemma digit_val_digit_char: "d < 10 \<Longrightarrow> digit_val (digit_char d) = d"
  by (simp add: digit_val_def digit_char_def)

lemma digits_from_all:
  "list_all is_digit cs \<Longrightarrow>
   digits_from acc cs = Inr (foldl (\<lambda>a c. 10 * a + digit_val c) acc cs)"
  by (induction cs arbitrary: acc) simp_all

lemma str_nat_digits: "list_all is_digit (str_nat n)"
proof (induction n rule: str_nat.induct)
  case (1 n)
  show ?case
  proof (cases "n < 10")
    case True
    then show ?thesis by (simp add: str_nat.simps [of n] is_digit_digit_char)
  next
    case False
    with 1 show ?thesis by (simp add: str_nat.simps [of n] is_digit_digit_char)
  qed
qed

lemma str_nat_val: "foldl (\<lambda>a c. 10 * a + digit_val c) 0 (str_nat n) = n"
proof (induction n rule: str_nat.induct)
  case (1 n)
  show ?case
  proof (cases "n < 10")
    case True
    then show ?thesis by (simp add: str_nat.simps [of n] digit_val_digit_char)
  next
    case False
    with 1 show ?thesis by (simp add: str_nat.simps [of n] digit_val_digit_char)
  qed
qed

lemma str_nat_nonempty: "str_nat n \<noteq> []"
  by (subst str_nat.simps) simp

lemma unsigned_str_nat: "unsigned (str_nat n) = Inr n"
proof -
  obtain c cs where eq: "str_nat n = c # cs"
    using str_nat_nonempty [of n] by (cases "str_nat n") auto
  have dig: "is_digit c" "list_all is_digit cs"
    using str_nat_digits [of n] by (simp_all add: eq)
  have "foldl (\<lambda>a c. 10 * a + digit_val c) (digit_val c) cs = n"
    using str_nat_val [of n] by (simp add: eq)
  then show ?thesis
    by (simp add: unsigned_def eq dig digits_from_all)
qed

lemma is_digit_not_space: "is_digit c \<Longrightarrow> \<not> is_space c"
  by (auto simp: is_digit_def is_space_def)

lemma strip_id:
  assumes "s \<noteq> []" "\<not> is_space (hd s)" "\<not> is_space (last s)"
  shows "strip s = s"
proof -
  have 1: "dropWhile is_space s = s"
    using assms by (cases s) auto
  have "rev s \<noteq> []" "\<not> is_space (hd (rev s))"
    using assms by (simp_all add: hd_rev)
  then have 2: "dropWhile is_space (rev s) = rev s"
    by (cases "rev s") auto
  show ?thesis by (simp add: strip_def 1 2)
qed

lemma str_nat_ends: "is_digit (hd (str_nat n))" "is_digit (last (str_nat n))"
proof -
  have "\<forall>c \<in> set (str_nat n). is_digit c"
    using str_nat_digits [of n] by (simp add: list_all_iff)
  then show "is_digit (hd (str_nat n))" "is_digit (last (str_nat n))"
    using str_nat_nonempty [of n] by simp_all
qed

lemma strip_str_nat: "strip (str_nat n) = str_nat n"
  by (rule strip_id) (simp_all add: str_nat_nonempty str_nat_ends is_digit_not_space)

lemma strip_minus_str_nat: "strip (CHR ''-'' # str_nat n) = CHR ''-'' # str_nat n"
proof (rule strip_id)
  show "\<not> is_space (hd (CHR ''-'' # str_nat n))"
    by (simp add: is_space_def)
  have "last (CHR ''-'' # str_nat n) = last (str_nat n)"
    by (simp add: str_nat_nonempty)
  then show "\<not> is_space (last (CHR ''-'' # str_nat n))"
    using str_nat_ends(2) [of n] by (simp add: is_digit_not_space)
qed simp

lemma py_int_py_str: "py_int (py_str i) = Inr i"
proof (cases "i < 0")
  case True
  then show ?thesis
    by (simp add: py_int_def py_str_def strip_minus_str_nat unsigned_str_nat)
next
  case False
  obtain c cs where eq: "str_nat (nat i) = c # cs"
    using str_nat_nonempty [of "nat i"] by (cases "str_nat (nat i)") auto
  have "is_digit c" using str_nat_ends(1) [of "nat i"] by (simp add: eq)
  then have "c \<noteq> CHR ''-''" "c \<noteq> CHR ''+''"
    by (auto simp: is_digit_def)
  moreover have "unsigned (c # cs) = Inr (nat i)"
    using unsigned_str_nat [of "nat i"] by (simp add: eq)
  moreover have "strip (c # cs) = c # cs"
    using strip_str_nat [of "nat i"] by (simp add: eq)
  ultimately show ?thesis
    using False by (simp add: py_int_def py_str_def eq)
qed

lemma py_str_nonempty: "py_str i \<noteq> []"
  by (simp add: py_str_def str_nat_nonempty)

lemma value_get_py_str [simp]: "value_get (sp\<lparr>input_value := py_str v\<rparr>) = v"
  by (simp add: value_get_def py_int_py_str)

lemma value_get_literal [simp]:
  "value_get \<lparr>min_val = mn, max_val = mx, input_value = py_str v\<rparr> = v"
  by (simp add: value_get_def py_int_py_str)

section \<open>What the field operations compute\<close>

lemma py_int_empty: "py_int [] = Inl ValueError"
  by (simp add: py_int_def strip_def)

lemma value_get_empty: "input_value sp = [] \<Longrightarrow> value_get sp = min_val sp"
  by (simp add: value_get_def py_int_empty)

lemma value_get_max_update [simp]: "value_get (sp\<lparr>max_val := n\<rparr>) = value_get sp"
  by (simp add: value_get_def split: sum.splits)

lemma constrain_value_eq:
  "min_val sp \<le> max_val sp \<Longrightarrow>
   constrain_value sp =
     (if input_value sp = [] \<or> number_valid sp then sp
      else sp\<lparr>input_value := py_str (if value_get sp > max_val sp then max_val sp else min_val sp)\<rparr>)"
  by (auto simp: constrain_value_def set_value_no_msg_def number_valid_def Let_def)

lemma constrain_value_bounds [simp]:
  "min_val (constrain_value sp) = min_val sp" "max_val (constrain_value sp) = max_val sp"
  by (simp_all add: constrain_value_def set_value_no_msg_def Let_def)

lemma constrain_value_value:
  "min_val sp \<le> max_val sp \<Longrightarrow>
   value_get (constrain_value sp) =
     (if value_get sp > max_val sp then max_val sp
      else if value_get sp < min_val sp then min_val sp else value_get sp)"
  by (auto simp: constrain_value_eq number_valid_def value_get_empty)

lemma constrain_value_idem: "constrain_value (constrain_value sp) = constrain_value sp"
  by (auto simp: constrain_value_def set_value_no_msg_def Let_def py_str_nonempty)

lemma constrain_value_max_idem:
  "constrain_value ((constrain_value (sp\<lparr>max_val := n\<rparr>))\<lparr>max_val := n\<rparr>) = constrain_value (sp\<lparr>max_val := n\<rparr>)"
proof -
  have e: "(constrain_value (sp\<lparr>max_val := n\<rparr>))\<lparr>max_val := n\<rparr> = constrain_value (sp\<lparr>max_val := n\<rparr>)"
    by (simp add: constrain_value_def set_value_no_msg_def Let_def)
  show ?thesis by (subst e) (rule constrain_value_idem)
qed

lemma ndays_12 [simp]: "ndays y 12 = 31"
  by (simp add: ndays_def mdays_def)

lemma ndays_cases:
  "1 \<le> m \<Longrightarrow> m \<le> 12 \<Longrightarrow>
   ndays y m = (if m = 2 then (if isleap y then 29 else 28)
                else if m = 4 \<or> m = 6 \<or> m = 9 \<or> m = 11 then 30 else 31)"
proof -
  assume "1 \<le> m" "m \<le> 12"
  then have "m = 1 \<or> m = 2 \<or> m = 3 \<or> m = 4 \<or> m = 5 \<or> m = 6 \<or> m = 7 \<or> m = 8 \<or> m = 9
      \<or> m = 10 \<or> m = 11 \<or> m = 12"
    by arith
  then show ?thesis
    by (elim disjE) (simp_all add: ndays_def mdays_def)
qed

lemma ndays_range: "1 \<le> m \<Longrightarrow> m \<le> 12 \<Longrightarrow> 28 \<le> ndays y m \<and> ndays y m \<le> 31"
  by (simp add: ndays_cases)

lemma ndays_1 [simp]: "ndays y 1 = 31"
  by (simp add: ndays_cases)

lemma constrain_value_keep:
  "min_val sp \<le> value_get sp \<Longrightarrow> value_get sp \<le> max_val sp \<Longrightarrow> constrain_value sp = sp"
  by (simp add: constrain_value_def Let_def)

lemma constrained_day_valid:
  "min_val sp \<le> n \<Longrightarrow> number_valid (constrain_value (sp\<lparr>max_val := n\<rparr>))"
  by (simp add: number_valid_def constrain_value_value)

lemma constrained_day_ndays:
  "min_val sp = 1 \<Longrightarrow> 1 \<le> m \<Longrightarrow> m \<le> 12 \<Longrightarrow>
   number_valid (constrain_value (sp\<lparr>max_val := ndays y m\<rparr>))"
  using ndays_range [of m y] by (simp add: constrained_day_valid)

lemma ndays_ge_1: "1 \<le> m \<Longrightarrow> m \<le> 12 \<Longrightarrow> 1 \<le> ndays y m"
  using ndays_range [of m y] by simp

lemma ndays_le_31: "1 \<le> m \<Longrightarrow> m \<le> 12 \<Longrightarrow> ndays y m \<le> 31"
  by (simp add: ndays_range)

lemma ndays_days_in_month: "1 \<le> m \<Longrightarrow> m \<le> 12 \<Longrightarrow> ndays y m = days_in_month y m"
  by (simp add: ndays_cases days_in_month_def isleap_def leap_year_rule_def)

lemma picker_at_eq:
  assumes "2010 \<le> y" "y \<le> 2024" "1 \<le> m" "m \<le> 12" "1 \<le> d" "d \<le> 31"
  shows "picker_at y m d =
     \<lparr>day = \<lparr>min_val = 1, max_val = 31, input_value = py_str d\<rparr>,
      month = \<lparr>min_val = 1, max_val = 12, input_value = py_str m\<rparr>,
      year = \<lparr>min_val = 2010, max_val = 2024, input_value = py_str y\<rparr>\<rparr>"
  using assms
  by (simp add: picker_at_def BasicDatePicker_init_def NumberSpinner_init_def number_valid_def
      Let_def)


section \<open>What the handlers compute\<close>

lemma value_set_Day [simp]:
  "value_set Day v (p, q) = (p\<lparr>day := (day p)\<lparr>input_value := py_str v\<rparr>\<rparr>, q @ [NumberChanged Day v])"
  by (simp add: Let_def put_spinner_def spinner_of_def)

lemma value_set_Month [simp]:
  "value_set Month v (p, q) =
     (p\<lparr>month := (month p)\<lparr>input_value := py_str v\<rparr>\<rparr>, q @ [NumberChanged Month v])"
  by (simp add: Let_def put_spinner_def spinner_of_def)

lemma value_set_Year [simp]:
  "value_set Year v (p, q) = (p\<lparr>year := (year p)\<lparr>input_value := py_str v\<rparr>\<rparr>, q @ [NumberChanged Year v])"
  by (simp add: Let_def put_spinner_def spinner_of_def)

declare value_set.simps [simp del]

lemma highest_day_ok:
  "1 \<le> value_get (month p) \<Longrightarrow> value_get (month p) \<le> 12 \<Longrightarrow>
   highest_day (p, q) = Inr (ndays (value_get (year p)) (value_get (month p)), (p, q))"
  by (simp add: highest_day_def monthrange_ndays_def)

lemma highest_day_under:
  "value_get (month p) < 1 \<Longrightarrow> highest_day (p, q) = Inl IllegalMonthError"
  by (simp add: highest_day_def monthrange_ndays_def)

lemma highest_day_over:
  "12 < value_get (month p) \<Longrightarrow>
   highest_day (p, q) =
     Inr (31, (p\<lparr>month := (month p)\<lparr>input_value := py_str 12\<rparr>\<rparr>, q @ [NumberChanged Month 12]))"
  by (simp add: highest_day_def monthrange_ndays_def)

lemma validate_ok:
  "1 \<le> value_get (month p) \<Longrightarrow> value_get (month p) \<le> 12 \<Longrightarrow>
   validate (p, q) =
     Inr (p\<lparr>day := constrain_value
                  ((day p)\<lparr>max_val := ndays (value_get (year p)) (value_get (month p))\<rparr>)\<rparr>, q)"
  by (simp add: validate_def highest_day_ok)

lemma validate_under:
  "value_get (month p) < 1 \<Longrightarrow> validate (p, q) = Inl IllegalMonthError"
  by (simp add: validate_def highest_day_under)

lemma validate_over:
  "12 < value_get (month p) \<Longrightarrow>
   validate (p, q) =
     Inr (p\<lparr>month := (month p)\<lparr>input_value := py_str 12\<rparr>,
             day := constrain_value ((day p)\<lparr>max_val := 31\<rparr>)\<rparr>, q @ [NumberChanged Month 12])"
  by (simp add: validate_def highest_day_over)

text \<open>The unfolding of an action with its delivery, and of validity in it.\<close>

lemmas press_defs = up_down_btn_def settle_def up_down_btn_handler_def on_spin_def date_set_def
  spinner_of_def Let_def seq_def highest_day_ok validate_ok validate_over validate_under

lemmas valid_defs = number_valid_def [of "month p"] number_valid_def [of "year p"]
  number_valid_def [of "day p"] number_valid_def [of "_\<lparr>input_value := _\<rparr>"] for p

lemmas day_facts = constrained_day_valid constrained_day_ndays constrain_value_value
  constrain_value_max_idem ndays_ge_1 ndays_le_31

lemmas spin_defs = press_defs deliver.simps spinner_layout_def within_bounds_def

text \<open>
  A press on each of the three spinners keeps the fields within their bounds, when the
  year has room for the carry; so does an assignment of a month of at least 1 and a year
  within the year bounds.
\<close>

lemma year_spin:
  assumes "spinner_layout p" "within_bounds p" "max_val (day p) \<le> 31"
  shows "\<exists>p'. up_down_btn Year dir p = Inr p' \<and> spinner_layout p' \<and> within_bounds p'
           \<and> max_val (day p') \<le> 31"
  using assms by (cases dir) (auto simp: spin_defs day_facts valid_defs)

lemma month_spin:
  assumes "spinner_layout p" "within_bounds p" "max_val (day p) \<le> 31"
    and "dir = Up \<and> value_get (month p) = 12 \<Longrightarrow> value_get (year p) < max_val (year p)"
    and "dir = Down \<and> value_get (month p) = 1 \<Longrightarrow> min_val (year p) < value_get (year p)"
  shows "\<exists>p'. up_down_btn Month dir p = Inr p' \<and> spinner_layout p' \<and> within_bounds p'
           \<and> max_val (day p') \<le> 31"
proof (cases dir)
  case Up
  show ?thesis
  proof (cases "value_get (month p) = 12")
    case True
    with Up assms show ?thesis
      by (simp add: spin_defs day_facts valid_defs)
  next
    case False
    with Up assms show ?thesis
      by (simp add: spin_defs day_facts valid_defs)
  qed
next
  case Down
  show ?thesis
  proof (cases "value_get (month p) = 1")
    case True
    with Down assms show ?thesis
      by (simp add: spin_defs day_facts valid_defs)
  next
    case False
    with Down assms show ?thesis
      by (simp add: spin_defs day_facts valid_defs)
  qed
qed


lemma day_spin:
  assumes "spinner_layout p" "within_bounds p" "max_val (day p) \<le> 31"
    and "dir = Up \<and> value_get (month p) = 12 \<and> value_get (day p) = 31
         \<Longrightarrow> value_get (year p) < max_val (year p)"
  shows "\<exists>p'. up_down_btn Day dir p = Inr p' \<and> spinner_layout p' \<and> within_bounds p'
           \<and> max_val (day p') \<le> 31"
proof (cases dir)
  case Up
  show ?thesis
  proof (cases "value_get (month p) = 12")
    case True
    with Up assms show ?thesis
      by (auto simp: spin_defs day_facts constrain_value_keep valid_defs)
  next
    case False
    with Up assms ndays_range [of "value_get (month p) + 1" "value_get (year p)"]
    show ?thesis
      by (auto simp: spin_defs day_facts constrain_value_keep valid_defs)
  qed
next
  case Down
  show ?thesis
  proof (cases "value_get (month p) = 1")
    case True
    with Down assms show ?thesis
      by (auto simp: spin_defs day_facts constrain_value_keep valid_defs)
  next
    case False
    with Down assms ndays_range [of "value_get (month p) - 1" "value_get (year p)"]
    show ?thesis
      by (auto simp: spin_defs day_facts constrain_value_keep valid_defs)
  qed
qed

lemma date_set_bounds:
  assumes "spinner_layout p" "1 \<le> m" "min_val (year p) \<le> y" "y \<le> max_val (year p)"
  shows "\<exists>p'. settle (date_set (DateTuple y m d)) p = Inr p' \<and> spinner_layout p'
           \<and> within_bounds p' \<and> max_val (day p') \<le> 31"
proof (cases "m \<le> 12")
  case True
  with assms show ?thesis
    by (simp add: spin_defs day_facts number_valid_def)
next
  case False
  with assms show ?thesis
    by (simp add: spin_defs day_facts number_valid_def)
qed

section \<open>Construction and clamping of one field\<close>

text \<open>
  Claim C7, as amended. A spinner built from \<open>(min, max, initial)\<close> stores \<open>initial\<close> when
  it lies within the bounds and \<open>min\<close> otherwise, above \<open>max\<close> as well as below \<open>min\<close>;
  without an initial value it stores \<open>min\<close>.
\<close>

theorem NumberSpinner_init_stores:
  "value_get (NumberSpinner_init mn mx (Some i)) = (if mn \<le> i \<and> i \<le> mx then i else mn)
   \<and> value_get (NumberSpinner_init mn mx None) = mn"
  by (simp add: NumberSpinner_init_def number_valid_def Let_def)

theorem NumberSpinner_init_stores_witness:
  "value_get (NumberSpinner_init 1 31 (Some 17)) = 17
   \<and> value_get (NumberSpinner_init 1 31 (Some 40)) = 1
   \<and> value_get (NumberSpinner_init 1 31 (Some 0)) = 1"
  using NumberSpinner_init_stores [of 1 31 17] NumberSpinner_init_stores [of 1 31 40]
    NumberSpinner_init_stores [of 1 31 0]
  by simp

text \<open>
  The claim as stated asks for the nearest bound: an initial value above \<open>max\<close> would be
  stored as \<open>max\<close>. With bounds 1 and 31 and the initial value 40 the spinner holds 1.
\<close>

theorem NumberSpinner_init_not_nearest:
  "(1::int) \<le> 31 \<and> (40::int) > 31 \<and> value_get (NumberSpinner_init 1 31 (Some 40)) \<noteq> 31"
  by (simp add: NumberSpinner_init_def number_valid_def Let_def)

text \<open>
  Claim C8. For a spinner with \<open>min \<le> max\<close>, \<^verbatim>\<open>constrain_value\<close> leaves the spinner as it
  is when the text is empty or the value is within the bounds, and otherwise stores \<open>max\<close>
  for a value above \<open>max\<close> and \<open>min\<close> for a value below \<open>min\<close>; afterwards the value lies
  within the bounds, and constraining a second time changes nothing.
\<close>

theorem constrain_value_clamps:
  assumes "min_val sp \<le> max_val sp"
  shows "constrain_value sp =
           (if input_value sp = [] \<or> number_valid sp then sp
            else sp\<lparr>input_value :=
                      py_str (if value_get sp > max_val sp then max_val sp else min_val sp)\<rparr>)
         \<and> min_val sp \<le> value_get (constrain_value sp)
         \<and> value_get (constrain_value sp) \<le> max_val sp
         \<and> constrain_value (constrain_value sp) = constrain_value sp"
proof -
  have lower: "min_val sp \<le> value_get (constrain_value sp)"
    and upper: "value_get (constrain_value sp) \<le> max_val sp"
    using assms by (simp_all add: constrain_value_value)
  show ?thesis
    by (intro conjI constrain_value_eq [OF assms] lower upper constrain_value_idem)
qed

theorem constrain_value_clamps_witness:
  "value_get (constrain_value \<lparr>min_val = 1, max_val = 28, input_value = py_str 31\<rparr>) = 28
   \<and> value_get (constrain_value \<lparr>min_val = 1, max_val = 28, input_value = py_str 0\<rparr>) = 1
   \<and> constrain_value \<lparr>min_val = 1, max_val = 28, input_value = py_str 15\<rparr>
       = \<lparr>min_val = 1, max_val = 28, input_value = py_str 15\<rparr>
   \<and> constrain_value \<lparr>min_val = 1, max_val = 28, input_value = []\<rparr>
       = \<lparr>min_val = 1, max_val = 28, input_value = []\<rparr>"
  using constrain_value_clamps [of "\<lparr>min_val = 1, max_val = 28, input_value = py_str 31\<rparr>"]
    constrain_value_clamps [of "\<lparr>min_val = 1, max_val = 28, input_value = py_str 0\<rparr>"]
    constrain_value_clamps [of "\<lparr>min_val = 1, max_val = 28, input_value = py_str 15\<rparr>"]
    constrain_value_clamps [of "\<lparr>min_val = 1, max_val = 28, input_value = []\<rparr>"]
  by (simp add: number_valid_def py_str_nonempty)

section \<open>Bounds of the three fields\<close>

lemma picker_at_layout:
  "2010 \<le> y \<Longrightarrow> y \<le> 2024 \<Longrightarrow> 1 \<le> m \<Longrightarrow> m \<le> 12 \<Longrightarrow> 1 \<le> d \<Longrightarrow> d \<le> 31 \<Longrightarrow>
   spinner_layout (picker_at y m d) \<and> within_bounds (picker_at y m d)
   \<and> max_val (day (picker_at y m d)) = 31 \<and> fields (picker_at y m d) = (y, m, d)
   \<and> min_val (year (picker_at y m d)) = 2010 \<and> max_val (year (picker_at y m d)) = 2024"
  by (simp add: picker_at_eq spinner_layout_def within_bounds_def number_valid_def fields_def)

text \<open>
  Claim C1, as amended. Take a picker with the constructor's bounds. If its three fields
  are within their bounds and its day ceiling is at most 31, then after a press of an up
  or down button, with the rollover it causes and all notifications delivered, every field
  is again within its bounds, provided the year has room for the carry the press causes: a
  month-up press in December, or a day-up press on 31 December, needs the year below its
  maximum, and a month-down press in January needs the year above its minimum. And after
  the assignment of any year, month and day whose month is at least 1 and whose year lies
  within the year bounds, with all notifications delivered, every field is within its
  bounds: the day is constrained to the month, and a month above 12 becomes 12.
\<close>

theorem fields_stay_within_bounds:
  assumes "spinner_layout p"
  shows "(within_bounds p \<and> max_val (day p) \<le> 31
          \<and> (dir = Up \<and> value_get (month p) = 12 \<and> (r = Month \<or> r = Day \<and> value_get (day p) = 31)
               \<longrightarrow> value_get (year p) < max_val (year p))
          \<and> (dir = Down \<and> r = Month \<and> value_get (month p) = 1
               \<longrightarrow> min_val (year p) < value_get (year p))
          \<longrightarrow> (\<exists>p'. up_down_btn r dir p = Inr p' \<and> spinner_layout p' \<and> within_bounds p'
                  \<and> max_val (day p') \<le> 31))
       \<and> (1 \<le> m \<and> min_val (year p) \<le> y \<and> y \<le> max_val (year p)
          \<longrightarrow> (\<exists>p'. settle (date_set (DateTuple y m d)) p = Inr p' \<and> spinner_layout p'
                  \<and> within_bounds p' \<and> max_val (day p') \<le> 31))"
proof (intro conjI impI)
  assume a: "within_bounds p \<and> max_val (day p) \<le> 31
      \<and> (dir = Up \<and> value_get (month p) = 12 \<and> (r = Month \<or> r = Day \<and> value_get (day p) = 31)
           \<longrightarrow> value_get (year p) < max_val (year p))
      \<and> (dir = Down \<and> r = Month \<and> value_get (month p) = 1
           \<longrightarrow> min_val (year p) < value_get (year p))"
  show "\<exists>p'. up_down_btn r dir p = Inr p' \<and> spinner_layout p' \<and> within_bounds p'
          \<and> max_val (day p') \<le> 31"
  proof (cases r)
    case Day
    with assms a show ?thesis by (simp add: day_spin)
  next
    case Month
    with assms a show ?thesis by (simp add: month_spin)
  next
    case Year
    with assms a show ?thesis by (simp add: year_spin)
  qed
next
  assume "1 \<le> m \<and> min_val (year p) \<le> y \<and> y \<le> max_val (year p)"
  with assms
  show "\<exists>p'. settle (date_set (DateTuple y m d)) p = Inr p' \<and> spinner_layout p'
          \<and> within_bounds p' \<and> max_val (day p') \<le> 31"
    by (simp add: date_set_bounds)
qed

theorem fields_stay_within_bounds_witness:
  "within_bounds (picker_at 2023 12 31)
   \<and> (\<exists>p'. up_down_btn Day Up (picker_at 2023 12 31) = Inr p' \<and> within_bounds p')
   \<and> (\<exists>p'. settle (date_set (DateTuple 2023 13 45)) (picker_at 2023 12 31) = Inr p'
          \<and> within_bounds p')"
  using fields_stay_within_bounds [of "picker_at 2023 12 31" Up Day 13 2023 45]
    picker_at_layout [of 2023 12 31]
  by (auto simp: fields_def)

text \<open>
  The claim as stated covers every spin and every assignment. A month-down press in
  January of the least year carries into the year all the same: the guard of that rule
  compares with \<^verbatim>\<open>>=\<close>, so the year 2010 of a picker whose least year is 2010
  becomes 2009, below its minimum. The setter of the date stores what it is given, and
  nothing constrains the year: the year 2030 stays, above the maximum 2024.
\<close>

theorem year_leaves_bounds:
  "within_bounds (picker_at 2010 1 15)
   \<and> map_sum id fields (up_down_btn Month Down (picker_at 2010 1 15)) = Inr (2009, 12, 15)
   \<and> map_sum id within_bounds (up_down_btn Month Down (picker_at 2010 1 15)) = Inr False
   \<and> map_sum id fields (settle (date_set (DateTuple 2030 5 5)) (picker_at 2010 1 15))
       = Inr (2030, 5, 5)
   \<and> map_sum id within_bounds (settle (date_set (DateTuple 2030 5 5)) (picker_at 2010 1 15))
       = Inr False"
  by (simp add: picker_at_eq within_bounds_def number_valid_def fields_def press_defs
      deliver.simps constrain_value_keep constrain_value_max_idem ndays_cases)

section \<open>Rollover rules\<close>

text \<open>
  Claim C2. The claim lets the month overflow fire only while the year is strictly below
  its maximum. The guard of the rule is \<^verbatim>\<open>self.year.value <= self.year.max\<close>: on a
  picker whose year is at its maximum 2024, a month-up press in December moves the year to
  2025 and the month to 1.
\<close>
theorem month_overflow_at_year_max:
  "value_get (year (picker_at 2024 12 15)) = max_val (year (picker_at 2024 12 15))
   \<and> map_sum id fields (up_down_btn Month Up (picker_at 2024 12 15)) = Inr (2025, 1, 15)"
  by (simp add: picker_at_eq fields_def press_defs deliver.simps constrain_value_keep
      constrain_value_max_idem)

text \<open>
  Claim C4. A day-up press on the last day of December, when the candidate is one more
  than the days of December, gives 1 January of the next year. The general rule for a day
  above the ceiling, which comes later in the chain and never touches the year, would
  apply to the same event; the year has gone up, so the December rule came first.
\<close>
theorem december_day_up:
  assumes "spinner_layout p" "value_get (month p) = 12"
    "value_get (day p) + 1 = ndays (value_get (year p)) 12 + 1"
  shows "map_sum id fields (up_down_btn Day Up p) = Inr (value_get (year p) + 1, 1, 1)"
  using assms
  by (simp add: press_defs deliver.simps fields_def spinner_layout_def constrain_value_keep
      constrain_value_max_idem)

theorem december_day_up_witness:
  "spinner_layout (picker_at 2023 12 31) \<and> fields (picker_at 2023 12 31) = (2023, 12, 31)
   \<and> map_sum id fields (up_down_btn Day Up (picker_at 2023 12 31)) = Inr (2024, 1, 1)"
  using december_day_up [of "picker_at 2023 12 31"] picker_at_layout [of 2023 12 31]
  by (simp add: fields_def)

text \<open>
  Claim C5, as amended. The rule for January tests the candidate against 0, the candidate
  of a press on day 1. Take a picker with the constructor's bounds that shows 1 January
  and whose day ceiling is not below the 31 days of January (the constructor sets 31, and
  \<^verbatim>\<open>validate\<close> sets the length of the month shown). After a day-down press, when the
  year is not at its minimum the picker shows the last day of December of the year before,
  and when it is, the picker stays at 1 January of the least year, where the same press
  applies again with the same result.
\<close>

theorem january_day_down:
  assumes "spinner_layout p" "value_get (month p) = 1" "value_get (day p) - 1 = 0"
    "31 \<le> max_val (day p)"
  shows "map_sum id fields (up_down_btn Day Down p) =
           Inr (if value_get (year p) \<noteq> min_val (year p)
                then (value_get (year p) - 1, 12, ndays (value_get (year p) - 1) 12)
                else (min_val (year p), 1, 1))"
  using assms
  by (simp add: press_defs fields_def spinner_layout_def constrain_value_value
      constrain_value_max_idem)

theorem january_day_down_witness:
  "map_sum id fields (up_down_btn Day Down (picker_at 2023 1 1)) = Inr (2022, 12, 31)
   \<and> map_sum id fields (up_down_btn Day Down (picker_at 2010 1 1)) = Inr (2010, 1, 1)"
  using january_day_down [of "picker_at 2023 1 1"] picker_at_layout [of 2023 1 1]
    january_day_down [of "picker_at 2010 1 1"] picker_at_layout [of 2010 1 1]
  by (simp add: fields_def)

text \<open>
  The claim as stated covers every candidate below 1. After \<^verbatim>\<open>day.value = 0\<close> on a
  picker showing 1 January 2023 the fields are (2023, 1, 0); a day-down press then has the
  candidate -1, the rule for January is passed over, the rule after it moves the month to
  0, and \<^verbatim>\<open>validate\<close> raises \<^verbatim>\<open>IllegalMonthError\<close>.
\<close>

theorem january_rule_misses_negative_candidate:
  "map_sum id fields (settle (value_set Day 0) (picker_at 2023 1 1)) = Inr (2023, 1, 0)
   \<and> seq (settle (value_set Day 0) (picker_at 2023 1 1)) (up_down_btn Day Down)
       = Inl IllegalMonthError"
  by (simp add: picker_at_eq fields_def press_defs)

section \<open>The day ceiling\<close>

text \<open>
  Claim C6, as amended. After an assignment to the month or the year that leaves a month of
  at least 1, once the change notification has been delivered (a month above 12 is then
  reset to 12), the ceiling of the day is the number of days of the year and month now
  held, by the leap-year rule of the specification, and the day is constrained to it: a
  day above the ceiling becomes the ceiling.
\<close>

theorem day_max_follows_month_and_year:
  assumes "spinner_layout p" and "r \<noteq> Day"
    and "1 \<le> (if r = Month then v else value_get (month p))"
  shows "\<exists>p'. settle (value_set r v) p = Inr p'
           \<and> max_val (day p') = days_in_month (value_get (year p')) (value_get (month p'))
           \<and> day p' = constrain_value ((day p)\<lparr>max_val := max_val (day p')\<rparr>)
           \<and> value_get (day p') =
               (if value_get (day p) > max_val (day p') then max_val (day p')
                else if value_get (day p) < 1 then 1 else value_get (day p))"
proof (cases r)
  case Day
  with assms show ?thesis by simp
next
  case Month
  show ?thesis
  proof (cases "12 < v")
    case True
    with assms Month show ?thesis
      by (simp add: settle_def validate_ok validate_over constrain_value_value
          constrain_value_max_idem spinner_layout_def ndays_days_in_month [symmetric])
  next
    case False
    with assms Month have m: "1 \<le> v" "v \<le> 12" by simp_all
    have "1 \<le> ndays (value_get (year p)) v"
      using m by (rule ndays_ge_1)
    with m assms Month show ?thesis
      by (simp add: settle_def validate_ok constrain_value_value spinner_layout_def
          ndays_days_in_month [symmetric])
  qed
next
  case Year
  show ?thesis
  proof (cases "12 < value_get (month p)")
    case True
    with assms Year show ?thesis
      by (simp add: settle_def validate_ok validate_over constrain_value_value
          constrain_value_max_idem spinner_layout_def ndays_days_in_month [symmetric])
  next
    case False
    with assms Year have m: "1 \<le> value_get (month p)" "value_get (month p) \<le> 12"
      by simp_all
    have "1 \<le> ndays v (value_get (month p))"
      using m by (rule ndays_ge_1)
    with m assms Year show ?thesis
      by (simp add: settle_def validate_ok constrain_value_value spinner_layout_def
          ndays_days_in_month [symmetric])
  qed
qed

theorem day_max_follows_month_and_year_witness:
  "(\<exists>p'. settle (value_set Month 2) (picker_at 2024 3 31) = Inr p' \<and> max_val (day p') = 29
        \<and> fields p' = (2024, 2, 29))
   \<and> (\<exists>p'. settle (value_set Year 2023) (picker_at 2024 2 10) = Inr p' \<and> max_val (day p') = 28
        \<and> fields p' = (2023, 2, 10))"
  using day_max_follows_month_and_year [of "picker_at 2024 3 31" Month 2]
    picker_at_layout [of 2024 3 31]
    day_max_follows_month_and_year [of "picker_at 2024 2 10" Year 2023]
    picker_at_layout [of 2024 2 10]
  by (auto simp: fields_def days_in_month_def leap_year_rule_def settle_def validate_ok)

text \<open>
  The claim as stated speaks of every committed change. When the setter returns, the
  month is committed and the ceiling is not yet recomputed: on a picker showing
  31 March 2024 the month 2 is stored and the ceiling is still 31, where February 2024 has
  29 days. And a month of 0 makes \<^verbatim>\<open>validate\<close> raise \<^verbatim>\<open>IllegalMonthError\<close>, the ceiling
  staying as it was.
\<close>

theorem day_max_not_yet_or_never:
  "fields (fst (value_set Month 2 (picker_at 2024 3 31, []))) = (2024, 2, 31)
   \<and> max_val (day (fst (value_set Month 2 (picker_at 2024 3 31, [])))) = 31
   \<and> days_in_month 2024 2 = 29
   \<and> settle (value_set Month 0) (picker_at 2024 3 31) = Inl IllegalMonthError"
  by (simp add: picker_at_eq fields_def settle_def validate_under days_in_month_def
      leap_year_rule_def)

text \<open>
  Claim C10. Reading \<^verbatim>\<open>highest_day\<close> while the month is above 12 stores 12 in the
  month, posts the change of the month, and returns the ceiling of month 12 of the year
  held, 31. The read leaves the day and the year as they are, and the bounds of the month
  too.
\<close>

theorem highest_day_resets_month:
  assumes "12 < value_get (month p)"
  shows "\<exists>p'. highest_day (p, q) = Inr (ndays (value_get (year p)) 12, (p', q @ [NumberChanged Month 12]))
           \<and> value_get (month p') = 12
           \<and> month p' = (month p)\<lparr>input_value := py_str 12\<rparr>
           \<and> day p' = day p
           \<and> year p' = year p"
  using assms by (simp add: highest_day_over)

theorem highest_day_resets_month_witness:
  "\<exists>p'. highest_day ((picker_at 2023 1 15)
            \<lparr>month := (month (picker_at 2023 1 15))\<lparr>input_value := py_str 13\<rparr>,
             day := (day (picker_at 2023 1 15))\<lparr>input_value := py_str 45\<rparr>\<rparr>, [])
          = Inr (31, (p', [NumberChanged Month 12])) \<and> fields p' = (2023, 12, 45)"
  using highest_day_resets_month
    [of "(picker_at 2023 1 15)
            \<lparr>month := (month (picker_at 2023 1 15))\<lparr>input_value := py_str 13\<rparr>,
             day := (day (picker_at 2023 1 15))\<lparr>input_value := py_str 45\<rparr>\<rparr>" "[]"]
    picker_at_layout [of 2023 1 15]
  by (auto simp: fields_def)

section \<open>The date property\<close>

text \<open>
  Claim C3. A valid date, once assigned, is read back: at once, when the setter has stored
  the three texts, and also when the notifications of the three assignments have been
  delivered, whatever month and ceiling the picker held before.
\<close>

theorem date_round_trip:
  assumes "spinner_layout p" "1 \<le> y" "y \<le> 9999" "1 \<le> m" "m \<le> 12" "1 \<le> d" "d \<le> ndays y m"
  shows "date_get (fst (date_set (DateTuple y m d) (p, q))) = Inr (Some (Date y m d))
       \<and> seq (settle (date_set (DateTuple y m d)) p) date_get = Inr (Some (Date y m d))"
  using assms ndays_le_31 [of m y]
  by (simp add: date_get_def date_new_def fits_c_int_def press_defs spinner_layout_def
      constrain_value_keep constrain_value_max_idem)

theorem date_round_trip_witness:
  "seq (settle (date_set (DateTuple 2024 2 29)) (picker_at 2023 1 15)) date_get
     = Inr (Some (Date 2024 2 29))
   \<and> seq (settle (date_set (DateTuple 2023 3 31))
        \<lparr>day = \<lparr>min_val = 1, max_val = 28, input_value = py_str 10\<rparr>,
         month = \<lparr>min_val = 1, max_val = 12, input_value = py_str 2\<rparr>,
         year = \<lparr>min_val = 2010, max_val = 2024, input_value = py_str 2023\<rparr>\<rparr>) date_get
     = Inr (Some (Date 2023 3 31))"
  using date_round_trip [of "picker_at 2023 1 15" 2024 2 29] picker_at_layout [of 2023 1 15]
    date_round_trip [of "\<lparr>day = \<lparr>min_val = 1, max_val = 28, input_value = py_str 10\<rparr>,
         month = \<lparr>min_val = 1, max_val = 12, input_value = py_str 2\<rparr>,
         year = \<lparr>min_val = 2010, max_val = 2024, input_value = py_str 2023\<rparr>\<rparr>" 2023 3 31]
  by (simp add: spinner_layout_def ndays_cases isleap_def)

lemma py_str_2147483648: "py_str 2147483648 = ''2147483648''"
  by (simp add: py_str_def str_nat.simps digit_char_def char_of_def bit_iff_odd)

text \<open>
  Claim C9. The claim is that the getter never raises. With the year text 2147483648 the
  constructor of the date raises \<^verbatim>\<open>OverflowError\<close>, which \<^verbatim>\<open>except ValueError\<close> does
  not catch.
\<close>

theorem date_get_overflow:
  "date_get ((picker_at 2023 1 15)
       \<lparr>year := (year (picker_at 2023 1 15))\<lparr>input_value := ''2147483648''\<rparr>\<rparr>)
   = Inl OverflowError"
  by (simp add: py_str_2147483648 [symmetric] picker_at_eq date_get_def date_new_def
      fits_c_int_def is_ValueError_def)

text \<open>
  For field values that fit a C \<^verbatim>\<open>int\<close> the getter does not raise: it returns the date
  when the three values form one, and \<^verbatim>\<open>None\<close> otherwise.
\<close>

lemma date_get_within_c_int:
  assumes "fits_c_int (value_get (year p))" "fits_c_int (value_get (month p))"
    "fits_c_int (value_get (day p))"
  shows "date_get p =
     Inr (if 1 \<le> value_get (year p) \<and> value_get (year p) \<le> 9999
            \<and> 1 \<le> value_get (month p) \<and> value_get (month p) \<le> 12
            \<and> 1 \<le> value_get (day p)
            \<and> value_get (day p) \<le> ndays (value_get (year p)) (value_get (month p))
          then Some (Date (value_get (year p)) (value_get (month p)) (value_get (day p)))
          else None)"
  using assms by (simp add: date_get_def date_new_def is_ValueError_def)

end
